theory Spec2Isabelle
  imports Main "HOL-Library.Word" "HOL-Library.Signed_Division"
begin

unbundle bit_operations_syntax

section \<open>wiretime: data model\<close>

text \<open>
  The program is \<^verbatim>\<open>wiretime.c\<close>, built for Linux on an LP64 target.
  \<^item> \<^verbatim>\<open>long\<close>, \<^verbatim>\<open>long long\<close>, \<^verbatim>\<open>time_t\<close>, \<^verbatim>\<open>ssize_t\<close> and \<^verbatim>\<open>int\<close> values are modelled as
    \<open>int\<close>; \<open>LONG_MAX\<close> and \<open>LONG_MIN\<close> are the 64-bit limits. The additions,
    subtractions and multiplications on \<^verbatim>\<open>long\<close> and \<^verbatim>\<open>long long\<close> values that can
    leave that range go through \<open>long_of\<close>, which gives the 64-bit two's complement
    result the compiled program computes (ISO C leaves signed overflow undefined).
    C's \<^verbatim>\<open>/\<close> truncates towards zero: it is \<open>sdiv\<close>.
  \<^item> \<^verbatim>\<open>size_t\<close> is \<open>64 word\<close>, \<^verbatim>\<open>uint16_t\<close> is \<open>16 word\<close>, \<^verbatim>\<open>__u32\<close> is \<open>32 word\<close>:
    unsigned arithmetic wraps around.
  \<^item> The fixed-size arrays \<^verbatim>\<open>samples[1024]\<close>, \<^verbatim>\<open>bins[12]\<close>, \<^verbatim>\<open>tstamps[3]\<close> and
    \<^verbatim>\<open>scm_timestamping.ts[3]\<close> are lists; every index the code uses is in range.
  \<^item> \<^verbatim>\<open>FILE *\<close> streams are optional logs: \<open>None\<close> is the \<^verbatim>\<open>NULL\<close> of a failed
    \<^verbatim>\<open>fopen\<close>, \<open>Some\<close> holds what has been written.
\<close>

record timespec =
  tv_sec :: int
  tv_nsec :: int

definition zero_timespec :: timespec where
  "zero_timespec = \<lparr>tv_sec = 0, tv_nsec = 0\<rparr>"

text \<open>\<^verbatim>\<open>struct scm_timestamping { struct timespec ts[3]; }\<close> and the fields of
  \<^verbatim>\<open>struct sock_extended_err\<close> that the program reads.\<close>

record scm_timestamping =
  ts :: "timespec list"

record sock_extended_err =
  ee_info :: "32 word"
  ee_data :: "32 word"

text \<open>
  One control message of a received \<^verbatim>\<open>msghdr\<close>. The code casts \<^verbatim>\<open>CMSG_DATA(cmsg)\<close>
  to one of two struct types according to level and type; the two fields below are
  the payload read through each of the two casts.
\<close>

record cmsghdr =
  cmsg_level :: int
  cmsg_type :: int
  data_tstamping :: scm_timestamping
  data_serr :: sock_extended_err

text \<open>What one call of \<^verbatim>\<open>recvmsg\<close> hands back: the return value, \<^verbatim>\<open>errno\<close>, and the
  control messages in the order \<^verbatim>\<open>CMSG_FIRSTHDR\<close>/\<^verbatim>\<open>CMSG_NXTHDR\<close> walk them.\<close>

record recvmsg_result =
  rr_bytes :: int
  rr_errno :: int
  rr_control :: "cmsghdr list"

text \<open>Lines written to the error stream, the trace marker and the output stream.
  The formatted numbers are kept as values.\<close>

datatype stderr_line =
    Perror string
  | ShortWrite
  | MissingTimestamp nat
  | SnapshotTaken
  | CycleLine "16 word" "int \<times> int" "int \<times> int" "int \<times> int" int bool

datatype marker_line =
    StartingSlackTime
  | StartingCycle
  | LatencyMarker int

datatype stdout_line =
    PacketsTransmitted "64 word"
  | MinMedianMax int int int
  | DistributionHeader
  | BinRow int int "64 word"
  | LastBinRow int "64 word"

text \<open>
  The file-scope variables of \<^verbatim>\<open>wiretime.c\<close>, the \<^verbatim>\<open>seqid\<close> of \<^verbatim>\<open>main\<close> with the
  sequence number it stores into the payload, the three output streams, and the
  error queue of the socket (kernel state that \<^verbatim>\<open>recvmsg\<close> reads): each queued
  message is the list of its control messages. \<open>snapshot = Some n\<close> means the snapshot
  file is open and the line \<^verbatim>\<open>1\<close> has been written to it \<open>n\<close> times.
\<close>

record state =
  snapshot :: "nat option"
  trace_marker :: "marker_line list option"
  num_packets :: "64 word"
  min_lat :: int
  max_lat :: int
  samples :: "int list"
  bins :: "64 word list"
  tstamps :: "timespec list"
  seqid :: "16 word"
  buf_seqid :: "16 word"
  stderr_log :: "stderr_line list"
  stdout_log :: "stdout_line list"
  errqueue :: "cmsghdr list list"

definition LONG_MAX :: int where "LONG_MAX = 2 ^ 63 - 1"
definition LONG_MIN :: int where "LONG_MIN = - (2 ^ 63)"

text \<open>The value a 64-bit two's complement variable holds after an operation whose
  mathematical result is \<open>x\<close>.\<close>

definition long_of :: "int \<Rightarrow> int" where
  "long_of x = signed_take_bit 63 x"

definition NSAMPLES :: nat where "NSAMPLES = 1024"
definition NBINS :: nat where "NBINS = 12"
definition BIN0 :: int where "BIN0 = 32"
definition BILLION :: int where "BILLION = 1000000000"

text \<open>Constants of the Linux headers the program includes (their values on Linux).\<close>

definition SOL_SOCKET :: int where "SOL_SOCKET = 1"
definition SCM_TIMESTAMPING :: int where "SCM_TIMESTAMPING = 37"
definition SOL_IP :: int where "SOL_IP = 0"
definition IP_RECVERR :: int where "IP_RECVERR = 11"
definition SCM_TSTAMP_SND :: "32 word" where "SCM_TSTAMP_SND = 0"
definition SCM_TSTAMP_SCHED :: "32 word" where "SCM_TSTAMP_SCHED = 1"
definition EAGAIN :: int where "EAGAIN = 11"
definition EINTR :: int where "EINTR = 4"

text \<open>The state at the start of the loop of \<^verbatim>\<open>main\<close>: the static initialisers, and the
  two streams as \<^verbatim>\<open>fopen\<close> returned them.\<close>

definition init_state :: "nat option \<Rightarrow> marker_line list option \<Rightarrow> state" where
  "init_state snap marker =
     \<lparr>snapshot = snap, trace_marker = marker, num_packets = 0,
      min_lat = LONG_MAX, max_lat = LONG_MIN,
      samples = replicate NSAMPLES 0, bins = replicate NBINS 0,
      tstamps = replicate 3 zero_timespec,
      seqid = 0, buf_seqid = 0, stderr_log = [], stdout_log = [], errqueue = []\<rparr>"

section \<open>The timestamp collector: \<^verbatim>\<open>recv_timestamp\<close>\<close>

text \<open>
  \<^verbatim>\<open>recvmsg(sockfd, &msgh, MSG_ERRQUEUE)\<close> as the kernel serves it: it never
  blocks; it takes the first queued message off the error queue, or fails with
  \<^verbatim>\<open>EAGAIN\<close> when the queue is empty. The timestamp messages carry no payload bytes
  (\<^verbatim>\<open>SOF_TIMESTAMPING_OPT_TSONLY\<close>).
\<close>

definition recvmsg_errqueue :: "state \<Rightarrow> recvmsg_result \<times> state" where
  "recvmsg_errqueue s =
     (case errqueue s of
        [] \<Rightarrow> (\<lparr>rr_bytes = -1, rr_errno = EAGAIN, rr_control = []\<rparr>, s)
      | m # q \<Rightarrow> (\<lparr>rr_bytes = 0, rr_errno = 0, rr_control = m\<rparr>, s\<lparr>errqueue := q\<rparr>))"

text \<open>The loop over the control messages: the last message of each kind wins.\<close>

fun cmsg_loop ::
  "cmsghdr list \<Rightarrow> scm_timestamping option \<Rightarrow> sock_extended_err option \<Rightarrow>
   scm_timestamping option \<times> sock_extended_err option" where
  "cmsg_loop [] tstamps_local serr = (tstamps_local, serr)"
| "cmsg_loop (cmsg # rest) tstamps_local serr =
     (if cmsg_level cmsg = SOL_SOCKET \<and> cmsg_type cmsg = SCM_TIMESTAMPING
      then cmsg_loop rest (Some (data_tstamping cmsg)) serr
      else if cmsg_level cmsg = SOL_IP \<and> cmsg_type cmsg = IP_RECVERR
      then cmsg_loop rest tstamps_local (Some (data_serr cmsg))
      else cmsg_loop rest tstamps_local serr)"

text \<open>Lines 189 to 212: what is stored once both pieces have been found.\<close>

definition store_timestamp ::
  "scm_timestamping \<Rightarrow> sock_extended_err \<Rightarrow> timespec list \<Rightarrow> timespec list" where
  "store_timestamp tstamps_local serr tst =
     (if ee_info serr = SCM_TSTAMP_SCHED
      then tst[0 := ts tstamps_local ! 0]
      else if ee_info serr = SCM_TSTAMP_SND \<and> tv_sec (ts tstamps_local ! 0) \<noteq> 0
      then tst[1 := ts tstamps_local ! 0]
      else if ee_info serr = SCM_TSTAMP_SND \<and> tv_sec (ts tstamps_local ! 2) \<noteq> 0
      then tst[2 := ts tstamps_local ! 2]
      else tst)"

text \<open>The body of \<^verbatim>\<open>recv_timestamp\<close> after \<^verbatim>\<open>recvmsg\<close> has returned \<open>r\<close>.\<close>

definition handle_recvmsg :: "recvmsg_result \<Rightarrow> state \<Rightarrow> state" where
  "handle_recvmsg r s =
     (if rr_bytes r < 0
      then (if rr_errno r \<noteq> EAGAIN
            then s\<lparr>stderr_log := stderr_log s @ [Perror ''recvmsg'']\<rparr>
            else s)
      else (case cmsg_loop (rr_control r) None None of
              (Some tstamps_local, Some serr) \<Rightarrow>
                s\<lparr>tstamps := store_timestamp tstamps_local serr (tstamps s)\<rparr>
            | _ \<Rightarrow> s))"

definition recv_timestamp :: "state \<Rightarrow> state" where
  "recv_timestamp s = (case recvmsg_errqueue s of (r, s') \<Rightarrow> handle_recvmsg r s')"

section \<open>The clock synchronizer: \<^verbatim>\<open>normalize\<close> and \<^verbatim>\<open>synchronize\<close>\<close>

text \<open>The loop of lines 219 to 223. The subtraction is taken when \<open>tv_nsec\<close> is at
  least \<open>BILLION\<close>, so it cannot overflow.\<close>

function normalize :: "timespec \<Rightarrow> timespec" where
  "normalize t =
     (if tv_nsec t \<ge> BILLION
      then normalize (t\<lparr>tv_sec := long_of (tv_sec t + 1), tv_nsec := tv_nsec t - BILLION\<rparr>)
      else t)"
  by pat_completeness auto
termination
  by (relation "measure (\<lambda>t. nat (tv_nsec t))") (auto simp: BILLION_def)

declare normalize.simps [simp del]

text \<open>Lines 242 to 250: the beginning of the next cycle, from the clock reading \<open>now\<close>.\<close>

definition next_cycle :: "int \<Rightarrow> int \<Rightarrow> timespec \<Rightarrow> timespec" where
  "next_cycle period addend now =
     normalize \<lparr>tv_sec = tv_sec now,
                tv_nsec = long_of (long_of (long_of ((tv_nsec now sdiv period) + 1) * period)
                                   + addend)\<rparr>"

text \<open>
  One return of \<^verbatim>\<open>pselect\<close> inside the wait loop, as the environment decides it:
  the messages the kernel has queued on the error queue in the meantime, the return
  value, \<^verbatim>\<open>errno\<close>, and the clock reading taken after the wake-up.
\<close>

record wake =
  wk_arrivals :: "cmsghdr list list"
  wk_fds :: int
  wk_errno :: int
  wk_now :: timespec

text \<open>
  The \<^verbatim>\<open>do ... while (error < -50000)\<close> loop over the wake-ups the environment
  supplies. \<open>error\<close> is the local variable of that name: \<^verbatim>\<open>continue\<close> after
  \<^verbatim>\<open>EINTR\<close> tests its previous value. The callback is \<^verbatim>\<open>recv_timestamp\<close>, the only
  one \<^verbatim>\<open>main\<close> passes. A used-up list ends the wait.
\<close>

fun sync_loop :: "timespec \<Rightarrow> int \<Rightarrow> wake list \<Rightarrow> state \<Rightarrow> state" where
  "sync_loop nxt error [] s = s"
| "sync_loop nxt error (w # ws) s =
     (let s1 = s\<lparr>errqueue := errqueue s @ wk_arrivals w\<rparr> in
      if wk_fds w < 0
      then (if wk_errno w \<noteq> EINTR
            then s1\<lparr>stderr_log := stderr_log s1 @ [Perror ''pselect'']\<rparr>
            else if error < -50000 then sync_loop nxt error ws s1 else s1)
      else
        (let s2 = (if wk_fds w \<noteq> 0 then recv_timestamp s1 else s1);
             error' = long_of (long_of (long_of (tv_sec (wk_now w) - tv_sec nxt) * BILLION)
                               + long_of (tv_nsec (wk_now w) - tv_nsec nxt))
         in if error' < -50000 then sync_loop nxt error' ws s2 else s2))"

definition synchronize ::
  "int \<Rightarrow> int \<Rightarrow> timespec \<Rightarrow> int \<Rightarrow> wake list \<Rightarrow> state \<Rightarrow> state" where
  "synchronize period addend now error ws s =
     sync_loop (next_cycle period addend now) error ws s"

section \<open>The statistics engine\<close>

text \<open>The loop of lines 121 to 128, from index \<open>i\<close>.\<close>

function bins_loop :: "int \<Rightarrow> nat \<Rightarrow> 64 word list \<Rightarrow> 64 word list" where
  "bins_loop latency i b =
     (if i < NBINS - 1
      then (if latency < BIN0 * push_bit i 1
            then b[i := b ! i + 1]
            else bins_loop latency (i + 1) b)
      else b[NBINS - 1 := b ! (NBINS - 1) + 1])"
  by pat_completeness auto
termination
  by (relation "measure (\<lambda>(latency, i, b). NBINS - 1 - i)") auto

declare bins_loop.simps [simp del]

definition update_statistics :: "int \<Rightarrow> state \<Rightarrow> state" where
  "update_statistics latency s =
     (let s1 = (if latency < min_lat s then s\<lparr>min_lat := latency\<rparr> else s);
          s2 = (if latency > max_lat s1 then s1\<lparr>max_lat := latency\<rparr> else s1);
          s3 = s2\<lparr>samples :=
                 (samples s2)[unat (num_packets s2 AND (of_nat NSAMPLES - 1)) := latency]\<rparr>
      in s3\<lparr>bins := bins_loop latency 0 (bins s3)\<rparr>)"

definition compar :: "int \<Rightarrow> int \<Rightarrow> int" where
  "compar p q = (if p < q then -1 else if p > q then 1 else 0)"

text \<open>
  \<^verbatim>\<open>qsort(base, n, size, compar)\<close> of the C library, by its contract: the first \<open>n\<close>
  elements of the array are put in ascending order of the comparison function, in
  place; the rest of the array is not touched. The order of elements that compare
  equal is unspecified in C; for \<^verbatim>\<open>long\<close> values equal elements are the same value.
\<close>

fun insort_by :: "(int \<Rightarrow> int \<Rightarrow> int) \<Rightarrow> int \<Rightarrow> int list \<Rightarrow> int list" where
  "insort_by c x [] = [x]"
| "insort_by c x (y # ys) = (if c x y \<le> 0 then x # y # ys else y # insort_by c x ys)"

definition qsort :: "int list \<Rightarrow> nat \<Rightarrow> (int \<Rightarrow> int \<Rightarrow> int) \<Rightarrow> int list" where
  "qsort base n c = foldr (insort_by c) (take n base) [] @ drop n base"

text \<open>The loop of lines 102 to 107; it returns the rows printed and the final \<open>low\<close>.\<close>

function rows_loop ::
  "nat \<Rightarrow> int \<Rightarrow> int \<Rightarrow> 64 word list \<Rightarrow> stdout_line list \<times> int" where
  "rows_loop i low high b =
     (if i < NBINS - 1
      then (case rows_loop (i + 1) (high + 1) (push_bit 1 high) b of
              (rows, low') \<Rightarrow> (BinRow low high (b ! i) # rows, low'))
      else ([], low))"
  by pat_completeness auto
termination
  by (relation "measure (\<lambda>(i, low, high, b). NBINS - 1 - i)") auto

declare rows_loop.simps [simp del]

definition print_statistics :: "state \<Rightarrow> state" where
  "print_statistics s =
     (let s1 = (if num_packets s \<noteq> 0 then s\<lparr>num_packets := num_packets s - 1\<rparr> else s);
          s2 = s1\<lparr>stdout_log := stdout_log s1 @ [PacketsTransmitted (num_packets s1)]\<rparr>
      in if num_packets s2 = 0 then s2
         else
           (let n = (if num_packets s2 > of_nat NSAMPLES
                     then NSAMPLES else unat (num_packets s2));
                s3 = s2\<lparr>samples := qsort (samples s2) n compar\<rparr>;
                s4 = s3\<lparr>stdout_log := stdout_log s3 @
                       [MinMedianMax (min_lat s3) (samples s3 ! (n div 2)) (max_lat s3),
                        DistributionHeader]\<rparr>
            in case rows_loop 0 0 BIN0 (bins s4) of
                 (rows, low) \<Rightarrow>
                   s4\<lparr>stdout_log := stdout_log s4 @ rows @
                        [LastBinRow (low - 1) (bins s4 ! (NBINS - 1))]\<rparr>))"

section \<open>The cycle controller: the loop of \<^verbatim>\<open>main\<close>\<close>

text \<open>The three checks of the arguments, lines 331 to 347: a message and
  \<^verbatim>\<open>exit(EXIT_FAILURE)\<close>, or the loop is reached.\<close>

definition check_args :: "int \<Rightarrow> int \<Rightarrow> int \<Rightarrow> string option" where
  "check_args period addend threshold =
     (if period \<le> 0 then Some ''error: period must be positive''
      else if addend < 0 then Some ''error: addend must be non-negative''
      else if threshold < 0 then Some ''error: threshold must be non-negative''
      else None)"

text \<open>What the environment decides in one iteration: the first clock reading of
  \<^verbatim>\<open>synchronize\<close>, the indeterminate initial value of its \<^verbatim>\<open>error\<close>, its wake-ups,
  and the return value of \<^verbatim>\<open>write\<close>.\<close>

record cycle_input =
  ci_now :: timespec
  ci_error :: int
  ci_wakes :: "wake list"
  ci_write :: int

definition put_marker :: "marker_line \<Rightarrow> state \<Rightarrow> state" where
  "put_marker l s =
     (case trace_marker s of
        None \<Rightarrow> s
      | Some ls \<Rightarrow> s\<lparr>trace_marker := Some (ls @ [l])\<rparr>)"

text \<open>Lines 472 to 490: stamp the payload, wait for the boundary, transmit.\<close>

definition transmit :: "int \<Rightarrow> int \<Rightarrow> cycle_input \<Rightarrow> state \<Rightarrow> state" where
  "transmit period addend inp s =
     (let s1 = put_marker StartingSlackTime (s\<lparr>buf_seqid := seqid s\<rparr>);
          s2 = synchronize period addend (ci_now inp) (ci_error inp) (ci_wakes inp) s1;
          s3 = put_marker StartingCycle s2
      in if ci_write inp < 0 then s3\<lparr>stderr_log := stderr_log s3 @ [Perror ''write'']\<rparr>
         else if ci_write inp \<noteq> 44 then s3\<lparr>stderr_log := stderr_log s3 @ [ShortWrite]\<rparr>
         else s3)"

text \<open>The test of lines 494 to 496, negated: all three seconds fields are non-zero.\<close>

definition tstamps_complete :: "timespec list \<Rightarrow> bool" where
  "tstamps_complete tst =
     (tv_sec (tst ! 0) \<noteq> 0 \<and> tv_sec (tst ! 1) \<noteq> 0 \<and> tv_sec (tst ! 2) \<noteq> 0)"

text \<open>Lines 498 to 508.\<close>

definition report_missing :: "state \<Rightarrow> state" where
  "report_missing s =
     (let miss = (\<lambda>i st. if tv_sec (tstamps st ! i) = 0
                          then st\<lparr>stderr_log := stderr_log st @ [MissingTimestamp i]\<rparr>
                          else st);
          s3 = miss 2 (miss 1 (miss 0 s))
      in case snapshot s3 of
           None \<Rightarrow> s3
         | Some k \<Rightarrow> s3\<lparr>snapshot := Some (Suc k),
                         stderr_log := stderr_log s3 @ [SnapshotTaken]\<rparr>)"

text \<open>Lines 513 to 515.\<close>

definition latency_us :: "timespec list \<Rightarrow> int" where
  "latency_us tst =
     long_of (long_of (long_of (tv_sec (tst ! 2) - tv_sec (tst ! 0)) * 1000000000)
              + long_of (tv_nsec (tst ! 2) - tv_nsec (tst ! 0))) sdiv 1000"

text \<open>The body of \<^verbatim>\<open>if (num_packets)\<close>, lines 494 to 542. The first component is
  \<open>True\<close> when the \<^verbatim>\<open>continue\<close> of line 510 is taken.\<close>

definition evaluate :: "int \<Rightarrow> state \<Rightarrow> bool \<times> state" where
  "evaluate threshold s =
     (if \<not> tstamps_complete (tstamps s) then (True, report_missing s)
      else
        (let latency = latency_us (tstamps s);
             s1 = put_marker (LatencyMarker latency) s;
             snapshotted = (snapshot s1 \<noteq> None \<and> threshold \<noteq> 0 \<and> latency > threshold);
             s2 = (if snapshotted then s1\<lparr>snapshot := map_option Suc (snapshot s1)\<rparr> else s1);
             t0 = tstamps s2 ! 0; t1 = tstamps s2 ! 1; t2 = tstamps s2 ! 2;
             s3 = s2\<lparr>stderr_log := stderr_log s2 @
                    [CycleLine (seqid s2)
                       (tv_sec t0, tv_nsec t0 sdiv 1000)
                       (tv_sec t1, tv_nsec t1 sdiv 1000)
                       (tv_sec t2, tv_nsec t2 sdiv 1000)
                       latency snapshotted]\<rparr>
         in (False, if num_packets s3 > 1 then update_statistics latency s3 else s3)))"

text \<open>One iteration of \<^verbatim>\<open>while (1)\<close>, lines 472 to 549.\<close>

definition cycle :: "int \<Rightarrow> int \<Rightarrow> int \<Rightarrow> cycle_input \<Rightarrow> state \<Rightarrow> state" where
  "cycle period addend threshold inp s =
     (let s1 = transmit period addend inp s in
      case (if num_packets s1 \<noteq> 0 then evaluate threshold s1 else (False, s1)) of
        (True, s2) \<Rightarrow> s2
      | (False, s2) \<Rightarrow>
          s2\<lparr>seqid := seqid s2 + 1,
             tstamps := replicate 3 zero_timespec,
             num_packets := num_packets s2 + 1\<rparr>)"

text \<open>
  The loop over the iterations that complete before the signal arrives. The handler
  calls \<^verbatim>\<open>exit\<close>, which runs \<^verbatim>\<open>print_statistics\<close>; the variables the report reads
  change only in lines 492 to 549, so the report is the one of the last iteration
  boundary.
\<close>

fun main_loop :: "int \<Rightarrow> int \<Rightarrow> int \<Rightarrow> cycle_input list \<Rightarrow> state \<Rightarrow> state" where
  "main_loop period addend threshold [] s = s"
| "main_loop period addend threshold (inp # inps) s =
     main_loop period addend threshold inps (cycle period addend threshold inp s)"

definition wiretime ::
  "int \<Rightarrow> int \<Rightarrow> int \<Rightarrow> nat option \<Rightarrow> marker_line list option \<Rightarrow> cycle_input list \<Rightarrow> state" where
  "wiretime period addend threshold snap marker inps =
     print_statistics (main_loop period addend threshold inps (init_state snap marker))"

section \<open>Notions used in the statements\<close>

text \<open>The two kinds of control message the collector looks for.\<close>

definition is_tstamping :: "cmsghdr \<Rightarrow> bool" where
  "is_tstamping c = (cmsg_level c = SOL_SOCKET \<and> cmsg_type c = SCM_TIMESTAMPING)"

definition is_recverr :: "cmsghdr \<Rightarrow> bool" where
  "is_recverr c = (cmsg_level c = SOL_IP \<and> cmsg_type c = IP_RECVERR)"

text \<open>The bucket rule in the specification's words: the smallest \<open>i\<close> in \<open>[0,10]\<close> with
  \<open>L < 32 * 2 ^ i\<close> (microseconds), else bucket 11.\<close>

definition spec_bucket :: "int \<Rightarrow> nat" where
  "spec_bucket L = (if \<exists>i\<le>10. L < 32 * 2 ^ i then (LEAST i. L < 32 * 2 ^ i) else 11)"

text \<open>A mathematical result that a 64-bit \<^verbatim>\<open>long\<close> can hold.\<close>

definition fits_long :: "int \<Rightarrow> bool" where
  "fits_long x = (LONG_MIN \<le> x \<and> x \<le> LONG_MAX)"

text \<open>A timestamp as one number of nanoseconds, and the wake target in the
  specification's words: \<open>ceil(now / period) * period + phaseOffset\<close>.\<close>

definition total_ns :: "timespec \<Rightarrow> int" where
  "total_ns t = tv_sec t * BILLION + tv_nsec t"


text \<open>The line of the error stream that reports a computed latency: it is written
  exactly when a cycle is evaluated with all three timestamps present.\<close>

fun is_cycle_line :: "stderr_line \<Rightarrow> bool" where
  "is_cycle_line (CycleLine sq a b c l snap) = True"
| "is_cycle_line _ = False"

definition counters :: "state \<Rightarrow> 64 word \<times> 16 word \<times> nat option" where
  "counters s = (num_packets s, seqid s, snapshot s)"

definition statistics :: "state \<Rightarrow> int \<times> int \<times> int list \<times> 64 word list" where
  "statistics s = (min_lat s, max_lat s, samples s, bins s)"

text \<open>No latency has reached the statistics yet.\<close>

definition fresh :: "state \<Rightarrow> bool" where
  "fresh s = ((num_packets s = 0 \<or> num_packets s = 1)
     \<and> statistics s = (LONG_MAX, LONG_MIN, replicate NSAMPLES 0, replicate NBINS 0))"

text \<open>
  Concrete inputs. \<open>tstamp_msg info sw hw\<close> is an error-queue message with a timestamp
  triple \<open>[sw, 0, hw]\<close> and an extended error of event type \<open>info\<close>. \<open>deliver msgs\<close>
  is an iteration with a period of 1 ms in which each message arrives at a wake-up
  that reports the socket ready, followed by the wake-up at the boundary. \<open>stamps\<close>
  is the usual three messages of one packet.
\<close>

definition tstamp_msg :: "32 word \<Rightarrow> timespec \<Rightarrow> timespec \<Rightarrow> cmsghdr list" where
  "tstamp_msg info sw hw =
     [\<lparr>cmsg_level = SOL_SOCKET, cmsg_type = SCM_TIMESTAMPING,
       data_tstamping = \<lparr>ts = [sw, zero_timespec, hw]\<rparr>,
       data_serr = \<lparr>ee_info = 0, ee_data = 0\<rparr>\<rparr>,
      \<lparr>cmsg_level = SOL_IP, cmsg_type = IP_RECVERR,
       data_tstamping = \<lparr>ts = replicate 3 zero_timespec\<rparr>,
       data_serr = \<lparr>ee_info = info, ee_data = 0\<rparr>\<rparr>]"

definition deliver :: "cmsghdr list list \<Rightarrow> cycle_input" where
  "deliver msgs =
     \<lparr>ci_now = \<lparr>tv_sec = 100, tv_nsec = 0\<rparr>, ci_error = 0,
      ci_wakes =
        map (\<lambda>m. \<lparr>wk_arrivals = [m], wk_fds = 1, wk_errno = 0,
                   wk_now = \<lparr>tv_sec = 100, tv_nsec = 200000\<rparr>\<rparr>) msgs
        @ [\<lparr>wk_arrivals = [], wk_fds = 0, wk_errno = 0,
            wk_now = \<lparr>tv_sec = 100, tv_nsec = 1000000\<rparr>\<rparr>],
      ci_write = 44\<rparr>"

definition stamps :: "timespec \<Rightarrow> timespec \<Rightarrow> timespec \<Rightarrow> cmsghdr list list" where
  "stamps sched sw hw =
     [tstamp_msg SCM_TSTAMP_SCHED sched zero_timespec,
      tstamp_msg SCM_TSTAMP_SND sw zero_timespec,
      tstamp_msg SCM_TSTAMP_SND zero_timespec hw]"

section \<open>Arithmetic within the range of \<^verbatim>\<open>long\<close>\<close>

lemma long_of_id: "LONG_MIN \<le> x \<Longrightarrow> x \<le> LONG_MAX \<Longrightarrow> long_of x = x"
  by (simp add: long_of_def LONG_MIN_def LONG_MAX_def signed_take_bit_int_eq_self)

lemma long_of_fits: "fits_long x \<Longrightarrow> long_of x = x"
  by (simp add: fits_long_def long_of_id)

lemmas long_eval = long_of_id LONG_MIN_def LONG_MAX_def

section \<open>What each step leaves alone\<close>

lemma put_marker_fields [simp]:
  "snapshot (put_marker l s) = snapshot s"
  "num_packets (put_marker l s) = num_packets s"
  "min_lat (put_marker l s) = min_lat s"
  "max_lat (put_marker l s) = max_lat s"
  "samples (put_marker l s) = samples s"
  "bins (put_marker l s) = bins s"
  "tstamps (put_marker l s) = tstamps s"
  "seqid (put_marker l s) = seqid s"
  "stderr_log (put_marker l s) = stderr_log s"
  by (simp_all add: put_marker_def split: option.splits)

lemma update_statistics_fields [simp]:
  "snapshot (update_statistics x s) = snapshot s"
  "num_packets (update_statistics x s) = num_packets s"
  "tstamps (update_statistics x s) = tstamps s"
  "seqid (update_statistics x s) = seqid s"
  "stderr_log (update_statistics x s) = stderr_log s"
  by (simp_all add: update_statistics_def Let_def)

lemma errqueue_handle_recvmsg: "errqueue (handle_recvmsg r s) = errqueue s"
  by (simp add: handle_recvmsg_def split: prod.splits option.splits)

lemma handle_recvmsg_frame:
  "counters (handle_recvmsg r s) = counters s"
  "statistics (handle_recvmsg r s) = statistics s"
  "set (stderr_log s) \<subseteq> set (stderr_log (handle_recvmsg r s))"
  by (auto simp: handle_recvmsg_def counters_def statistics_def split: option.splits prod.splits)

lemma recv_timestamp_frame:
  "counters (recv_timestamp s) = counters s"
  "statistics (recv_timestamp s) = statistics s"
  "set (stderr_log s) \<subseteq> set (stderr_log (recv_timestamp s))"
proof -
  obtain r s' where rs: "recvmsg_errqueue s = (r, s')" by (cases "recvmsg_errqueue s")
  then have "counters s' = counters s" "statistics s' = statistics s" "stderr_log s' = stderr_log s"
    by (auto simp: recvmsg_errqueue_def counters_def statistics_def split: list.splits)
  with rs handle_recvmsg_frame [where r = r and s = s']
  show "counters (recv_timestamp s) = counters s"
    "statistics (recv_timestamp s) = statistics s"
    "set (stderr_log s) \<subseteq> set (stderr_log (recv_timestamp s))"
    by (simp_all add: recv_timestamp_def)
qed

lemma sync_loop_frame:
  "counters (sync_loop nxt e ws s) = counters s
   \<and> statistics (sync_loop nxt e ws s) = statistics s
   \<and> set (stderr_log s) \<subseteq> set (stderr_log (sync_loop nxt e ws s))"
proof (induction ws arbitrary: s e)
  case Nil
  show ?case by simp
next
  case (Cons w ws)
  define s1 where "s1 = s\<lparr>errqueue := errqueue s @ wk_arrivals w\<rparr>"
  have s1: "counters s1 = counters s" "statistics s1 = statistics s" "stderr_log s1 = stderr_log s"
    by (simp_all add: s1_def counters_def statistics_def)
  define s2 where "s2 = (if wk_fds w \<noteq> 0 then recv_timestamp s1 else s1)"
  have s2: "counters s2 = counters s" "statistics s2 = statistics s"
    "set (stderr_log s) \<subseteq> set (stderr_log s2)"
    using s1 recv_timestamp_frame [where s = s1] by (auto simp: s2_def)
  have perr: "counters (s1\<lparr>stderr_log := stderr_log s1 @ [Perror ''pselect'']\<rparr>) = counters s"
    "statistics (s1\<lparr>stderr_log := stderr_log s1 @ [Perror ''pselect'']\<rparr>) = statistics s"
    using s1 by (simp_all add: counters_def statistics_def)
  show ?case
    using Cons.IH [of _ s1] Cons.IH [of _ s2] s1 s2 perr
    by (simp add: Let_def s1_def [symmetric] s2_def [symmetric]) blast
qed

lemma transmit_frame:
  "counters (transmit period addend inp s) = counters s"
  "statistics (transmit period addend inp s) = statistics s"
  "set (stderr_log s) \<subseteq> set (stderr_log (transmit period addend inp s))"
proof -
  define s1 where "s1 = put_marker StartingSlackTime (s\<lparr>buf_seqid := seqid s\<rparr>)"
  define s2 where "s2 = synchronize period addend (ci_now inp) (ci_error inp) (ci_wakes inp) s1"
  define s3 where "s3 = put_marker StartingCycle s2"
  have s1: "counters s1 = counters s" "statistics s1 = statistics s" "stderr_log s1 = stderr_log s"
    by (simp_all add: s1_def counters_def statistics_def)
  have s2: "counters s2 = counters s" "statistics s2 = statistics s"
    "set (stderr_log s) \<subseteq> set (stderr_log s2)"
    using sync_loop_frame [of "next_cycle period addend (ci_now inp)" "ci_error inp" "ci_wakes inp" s1] s1
    by (simp_all add: s2_def synchronize_def)
  have s3: "counters s3 = counters s" "statistics s3 = statistics s"
    "set (stderr_log s) \<subseteq> set (stderr_log s3)"
    using s2 by (simp_all add: s3_def counters_def statistics_def)
  have t: "transmit period addend inp s =
      (if ci_write inp < 0 then s3\<lparr>stderr_log := stderr_log s3 @ [Perror ''write'']\<rparr>
       else if ci_write inp \<noteq> 44 then s3\<lparr>stderr_log := stderr_log s3 @ [ShortWrite]\<rparr>
       else s3)"
    by (simp add: transmit_def Let_def s1_def s2_def s3_def)
  show "counters (transmit period addend inp s) = counters s"
    using s3 by (simp add: t) (simp add: counters_def)
  show "statistics (transmit period addend inp s) = statistics s"
    using s3 by (simp add: t) (simp add: statistics_def)
  show "set (stderr_log s) \<subseteq> set (stderr_log (transmit period addend inp s))"
    using s3 by (auto simp: t)
qed

lemma report_missing_frame:
  "num_packets (report_missing s) = num_packets s"
  "seqid (report_missing s) = seqid s"
  "statistics (report_missing s) = statistics s"
  "tstamps (report_missing s) = tstamps s"
  "set (stderr_log s) \<subseteq> set (stderr_log (report_missing s))"
  by (auto simp: report_missing_def Let_def statistics_def split: option.splits)

lemma evaluate_complete:
  assumes "tstamps_complete (tstamps s)"
  shows "fst (evaluate threshold s) = False"
    and "num_packets (snd (evaluate threshold s)) = num_packets s"
    and "seqid (snd (evaluate threshold s)) = seqid s"
    and "\<exists>l. is_cycle_line l \<and> l \<in> set (stderr_log (snd (evaluate threshold s)))"
    and "\<not> 1 < num_packets s \<Longrightarrow> statistics (snd (evaluate threshold s)) = statistics s"
proof -
  show "fst (evaluate threshold s) = False"
    using assms by (simp add: evaluate_def Let_def)
  show "num_packets (snd (evaluate threshold s)) = num_packets s"
    using assms by (simp add: evaluate_def Let_def)
  show "seqid (snd (evaluate threshold s)) = seqid s"
    using assms by (simp add: evaluate_def Let_def)
  show "\<exists>l. is_cycle_line l \<and> l \<in> set (stderr_log (snd (evaluate threshold s)))"
    using assms by (simp add: evaluate_def Let_def) (metis is_cycle_line.simps(1))
  show "statistics (snd (evaluate threshold s)) = statistics s" if "\<not> 1 < num_packets s"
    using assms that by (simp add: evaluate_def Let_def statistics_def)
qed

lemma evaluate_incomplete:
  assumes "\<not> tstamps_complete (tstamps s)"
  shows "evaluate threshold s = (True, report_missing s)"
  using assms by (simp add: evaluate_def)

lemma stderr_evaluate: "set (stderr_log s) \<subseteq> set (stderr_log (snd (evaluate threshold s)))"
  using report_missing_frame(5) [of s]
  by (auto simp: evaluate_def Let_def)

lemma stderr_cycle: "set (stderr_log s) \<subseteq> set (stderr_log (cycle period addend threshold inp s))"
proof -
  define s1 where "s1 = transmit period addend inp s"
  have a: "set (stderr_log s) \<subseteq> set (stderr_log s1)"
    by (simp add: s1_def transmit_frame)
  have b: "set (stderr_log s1) \<subseteq> set (stderr_log (snd (evaluate threshold s1)))"
    by (rule stderr_evaluate)
  obtain c s2 where ev: "evaluate threshold s1 = (c, s2)"
    by (cases "evaluate threshold s1")
  with b have "set (stderr_log s1) \<subseteq> set (stderr_log s2)" by simp
  with a ev show ?thesis
    by (cases c) (auto simp: cycle_def s1_def [symmetric])
qed

lemma stderr_main_loop:
  "set (stderr_log s) \<subseteq> set (stderr_log (main_loop period addend threshold inps s))"
proof (induction inps arbitrary: s)
  case Nil
  show ?case by simp
next
  case (Cons inp inps)
  from stderr_cycle [of s period addend threshold inp] Cons.IH [of "cycle period addend threshold inp s"]
  show ?case by auto
qed

section \<open>Evaluating the concrete inputs\<close>

lemmas linux_defs = SOL_SOCKET_def SCM_TIMESTAMPING_def SOL_IP_def IP_RECVERR_def
  SCM_TSTAMP_SND_def SCM_TSTAMP_SCHED_def EAGAIN_def EINTR_def

lemma replicate3: "replicate 3 x = [x, x, x]"
  by (simp add: eval_nat_numeral)

lemma cmsg_loop_tstamp_msg:
  "cmsg_loop (tstamp_msg info sw hw) None None =
     (Some \<lparr>ts = [sw, zero_timespec, hw]\<rparr>, Some \<lparr>ee_info = info, ee_data = 0\<rparr>)"
  by (simp add: tstamp_msg_def SOL_SOCKET_def SCM_TIMESTAMPING_def SOL_IP_def IP_RECVERR_def)

lemmas recv_defs = recv_timestamp_def recvmsg_errqueue_def handle_recvmsg_def
  cmsg_loop_tstamp_msg store_timestamp_def

lemma recv_tstamp_msg:
  "recv_timestamp (s\<lparr>errqueue := [tstamp_msg info sw hw]\<rparr>)
     = s\<lparr>errqueue := [], tstamps := store_timestamp \<lparr>ts = [sw, zero_timespec, hw]\<rparr>
                        \<lparr>ee_info = info, ee_data = 0\<rparr> (tstamps s)\<rparr>"
  by (simp add: recv_timestamp_def recvmsg_errqueue_def handle_recvmsg_def cmsg_loop_tstamp_msg)

lemma next_cycle_1ms:
  "next_cycle 1000000 0 \<lparr>tv_sec = 100, tv_nsec = 0\<rparr> = \<lparr>tv_sec = 100, tv_nsec = 1000000\<rparr>"
  by (simp add: next_cycle_def normalize.simps BILLION_def long_eval)

lemma synchronize_deliver:
  assumes "errqueue s = []"
  shows "synchronize 1000000 0 (ci_now (deliver msgs)) (ci_error (deliver msgs))
           (ci_wakes (deliver msgs)) s
         = foldl (\<lambda>st m. recv_timestamp (st\<lparr>errqueue := [m]\<rparr>)) s msgs"
proof -
  have "errqueue st = [] \<Longrightarrow> sync_loop \<lparr>tv_sec = 100, tv_nsec = 1000000\<rparr> e
          (map (\<lambda>m. \<lparr>wk_arrivals = [m], wk_fds = 1, wk_errno = 0,
                   wk_now = \<lparr>tv_sec = 100, tv_nsec = 200000\<rparr>\<rparr>) msgs
            @ [\<lparr>wk_arrivals = [], wk_fds = 0, wk_errno = 0,
               wk_now = \<lparr>tv_sec = 100, tv_nsec = 1000000\<rparr>\<rparr>]) st
        = foldl (\<lambda>st m. recv_timestamp (st\<lparr>errqueue := [m]\<rparr>)) st msgs" for st e
  proof (induction msgs arbitrary: st e)
    case Nil
    then show ?case by (simp add: BILLION_def long_eval)
  next
    case (Cons m msgs)
    have "errqueue (recv_timestamp (st\<lparr>errqueue := [m]\<rparr>)) = []"
      by (simp add: recv_timestamp_def recvmsg_errqueue_def errqueue_handle_recvmsg)
    from Cons.IH [OF this] Cons.prems show ?case
      by (simp add: BILLION_def long_eval)
  qed
  with assms show ?thesis
    by (simp add: synchronize_def deliver_def next_cycle_1ms)
qed

lemma transmit_deliver:
  assumes "errqueue s = []" and "trace_marker s = None"
  shows "transmit 1000000 0 (deliver msgs) s
         = foldl (\<lambda>st m. recv_timestamp (st\<lparr>errqueue := [m]\<rparr>)) (s\<lparr>buf_seqid := seqid s\<rparr>) msgs"
proof -
  have tm: "trace_marker (foldl (\<lambda>st m. recv_timestamp (st\<lparr>errqueue := [m]\<rparr>)) st msgs)
      = trace_marker st" for st
    by (induction msgs arbitrary: st)
       (simp_all add: recv_timestamp_def recvmsg_errqueue_def handle_recvmsg_def
          split: prod.splits option.splits)
  have w: "ci_write (deliver msgs) = 44" by (simp add: deliver_def)
  show ?thesis
    using assms by (simp add: transmit_def Let_def put_marker_def synchronize_deliver tm w)
qed

lemma transmit_stamps:
  assumes "errqueue s = []" and "trace_marker s = None" and "tstamps s = [x, y, z]"
    and "tv_sec b \<noteq> 0" and "tv_sec c \<noteq> 0"
  shows "transmit 1000000 0 (deliver (stamps a b c)) s
         = s\<lparr>buf_seqid := seqid s, tstamps := [a, b, c]\<rparr>"
  using assms
  by (simp add: transmit_deliver stamps_def recv_tstamp_msg store_timestamp_def
      SCM_TSTAMP_SND_def SCM_TSTAMP_SCHED_def zero_timespec_def)

lemma cycle_first:
  "cycle 1000000 0 T (deliver []) (init_state None None)
     = (init_state None None)\<lparr>num_packets := 1, seqid := 1\<rparr>"
  by (simp add: cycle_def transmit_deliver init_state_def)

section \<open>The cycle controller\<close>

text \<open>
  C1, amended. In every iteration whose evaluation does not find a missing stage
  timestamp, that is, when nothing is evaluated because \<open>num_packets\<close> is \<open>0\<close>, or
  when the three timestamps are complete after the wait, the sequence counter is
  advanced by one (wrapping modulo 65536), the timestamp record is reset to three
  zero timestamps, and the packet count is incremented.
\<close>

theorem cycle_advances_when_not_missing:
  assumes "num_packets s = 0 \<or> tstamps_complete (tstamps (transmit period addend inp s))"
  shows "seqid (cycle period addend threshold inp s) = seqid s + 1
       \<and> unat (seqid (cycle period addend threshold inp s)) = (unat (seqid s) + 1) mod 65536
       \<and> tstamps (cycle period addend threshold inp s) = replicate 3 zero_timespec
       \<and> num_packets (cycle period addend threshold inp s) = num_packets s + 1"
proof -
  define s1 where "s1 = transmit period addend inp s"
  have fr: "num_packets s1 = num_packets s" "seqid s1 = seqid s"
    using transmit_frame(1) [of period addend inp s] by (simp_all add: s1_def counters_def)
  have w: "unat (seqid s + 1) = (unat (seqid s) + 1) mod 65536"
    by (simp add: unat_word_ariths)
  show ?thesis
  proof (cases "num_packets s = 0")
    case True
    with fr w show ?thesis by (simp add: cycle_def s1_def [symmetric])
  next
    case False
    with assms have "tstamps_complete (tstamps s1)" by (simp add: s1_def)
    from evaluate_complete(1-3) [OF this, of threshold]
    obtain s2 where "evaluate threshold s1 = (False, s2)"
      "num_packets s2 = num_packets s1" "seqid s2 = seqid s1"
      by (cases "evaluate threshold s1") auto
    with False fr w show ?thesis
      by (simp add: cycle_def s1_def [symmetric])
  qed
qed

text \<open>
  Witness for C1: the eighth iteration, with sequence counter 65535 and the three
  timestamps of the previous packet delivered during the wait. The counter wraps to
  0, the count becomes 8, the record is reset.
\<close>

theorem cycle_advances_when_not_missing_witness:
  "tstamps_complete (tstamps (transmit 1000000 0
        (deliver (stamps \<lparr>tv_sec = 1, tv_nsec = 0\<rparr> \<lparr>tv_sec = 1, tv_nsec = 50000\<rparr>
                         \<lparr>tv_sec = 1, tv_nsec = 120000\<rparr>))
        ((init_state None None)\<lparr>num_packets := 7, seqid := 65535\<rparr>)))
   \<and> seqid (cycle 1000000 0 0
        (deliver (stamps \<lparr>tv_sec = 1, tv_nsec = 0\<rparr> \<lparr>tv_sec = 1, tv_nsec = 50000\<rparr>
                         \<lparr>tv_sec = 1, tv_nsec = 120000\<rparr>))
        ((init_state None None)\<lparr>num_packets := 7, seqid := 65535\<rparr>)) = 0
   \<and> num_packets (cycle 1000000 0 0
        (deliver (stamps \<lparr>tv_sec = 1, tv_nsec = 0\<rparr> \<lparr>tv_sec = 1, tv_nsec = 50000\<rparr>
                         \<lparr>tv_sec = 1, tv_nsec = 120000\<rparr>))
        ((init_state None None)\<lparr>num_packets := 7, seqid := 65535\<rparr>)) = 8
   \<and> tstamps (cycle 1000000 0 0
        (deliver (stamps \<lparr>tv_sec = 1, tv_nsec = 0\<rparr> \<lparr>tv_sec = 1, tv_nsec = 50000\<rparr>
                         \<lparr>tv_sec = 1, tv_nsec = 120000\<rparr>))
        ((init_state None None)\<lparr>num_packets := 7, seqid := 65535\<rparr>))
       = [zero_timespec, zero_timespec, zero_timespec]"
proof -
  let ?s = "(init_state None None)\<lparr>num_packets := 7, seqid := 65535\<rparr>"
  let ?inp = "deliver (stamps \<lparr>tv_sec = 1, tv_nsec = 0\<rparr> \<lparr>tv_sec = 1, tv_nsec = 50000\<rparr>
                         \<lparr>tv_sec = 1, tv_nsec = 120000\<rparr>)"
  have t: "tstamps (transmit 1000000 0 ?inp ?s)
      = [\<lparr>tv_sec = 1, tv_nsec = 0\<rparr>, \<lparr>tv_sec = 1, tv_nsec = 50000\<rparr>,
         \<lparr>tv_sec = 1, tv_nsec = 120000\<rparr>]"
    by (subst transmit_stamps [where x = zero_timespec and y = zero_timespec and z = zero_timespec])
       (simp_all add: init_state_def replicate3)
  then have h: "num_packets ?s = 0 \<or> tstamps_complete (tstamps (transmit 1000000 0 ?inp ?s))"
    by (simp add: tstamps_complete_def)
  from cycle_advances_when_not_missing [OF h, of 0] t show ?thesis
    by (simp add: tstamps_complete_def replicate3)
qed

text \<open>
  Counterexample to C1 as stated. First iteration, then an iteration in which only
  the scheduler and the driver timestamps of the packet arrive: the hardware
  timestamp is missing, line 510 continues the loop, and the sequence counter stays
  1, the packet count stays 1, and the record keeps the two timestamps it holds.
\<close>

theorem cycle_missing_skips_advance:
  "seqid (cycle 1000000 0 0
            (deliver [tstamp_msg SCM_TSTAMP_SCHED \<lparr>tv_sec = 5, tv_nsec = 0\<rparr> zero_timespec,
                      tstamp_msg SCM_TSTAMP_SND \<lparr>tv_sec = 5, tv_nsec = 40000\<rparr> zero_timespec])
            (cycle 1000000 0 0 (deliver []) (init_state None None))) = 1
   \<and> seqid (cycle 1000000 0 0 (deliver []) (init_state None None)) = 1
   \<and> num_packets (cycle 1000000 0 0
            (deliver [tstamp_msg SCM_TSTAMP_SCHED \<lparr>tv_sec = 5, tv_nsec = 0\<rparr> zero_timespec,
                      tstamp_msg SCM_TSTAMP_SND \<lparr>tv_sec = 5, tv_nsec = 40000\<rparr> zero_timespec])
            (cycle 1000000 0 0 (deliver []) (init_state None None))) = 1
   \<and> num_packets (cycle 1000000 0 0 (deliver []) (init_state None None)) = 1
   \<and> tstamps (cycle 1000000 0 0
            (deliver [tstamp_msg SCM_TSTAMP_SCHED \<lparr>tv_sec = 5, tv_nsec = 0\<rparr> zero_timespec,
                      tstamp_msg SCM_TSTAMP_SND \<lparr>tv_sec = 5, tv_nsec = 40000\<rparr> zero_timespec])
            (cycle 1000000 0 0 (deliver []) (init_state None None)))
       = [\<lparr>tv_sec = 5, tv_nsec = 0\<rparr>, \<lparr>tv_sec = 5, tv_nsec = 40000\<rparr>, zero_timespec]"
  by (simp add: cycle_first)
     (simp add: cycle_def transmit_deliver recv_defs init_state_def
        linux_defs zero_timespec_def evaluate_def tstamps_complete_def report_missing_def
        replicate3 Let_def)

section \<open>The collector\<close>

text \<open>
  C3, amended. One call of \<^verbatim>\<open>recv_timestamp\<close> performs exactly one non-blocking read
  of the error queue: it takes the first queued message, if there is one, and leaves
  every other message queued. The wait loop calls it once for a wake-up that
  reports the socket ready and not at all for a wake-up that does not: after one
  wake-up, the queue is what was queued plus what arrived, less its first message in
  the first case and whole in the second.
\<close>

theorem recv_timestamp_reads_one_message:
  "errqueue (recv_timestamp s) = tl (errqueue s)
   \<and> errqueue (sync_loop nxt e [w] s)
       = (if 0 < wk_fds w then tl (errqueue s @ wk_arrivals w)
          else errqueue s @ wk_arrivals w)"
proof -
  have one: "errqueue (recv_timestamp s') = tl (errqueue s')" for s'
    by (cases "errqueue s'")
       (simp_all add: recv_timestamp_def recvmsg_errqueue_def errqueue_handle_recvmsg)
  show ?thesis
    by (simp add: Let_def one)
qed

text \<open>
  Counterexample to C3 as stated: with two messages queued, the second is still
  queued when the call returns.
\<close>

theorem recv_timestamp_leaves_messages_queued:
  "errqueue (recv_timestamp ((init_state None None)
      \<lparr>errqueue := [tstamp_msg SCM_TSTAMP_SCHED \<lparr>tv_sec = 5, tv_nsec = 0\<rparr> zero_timespec,
                    tstamp_msg SCM_TSTAMP_SND \<lparr>tv_sec = 5, tv_nsec = 40000\<rparr> zero_timespec]\<rparr>))
   = [tstamp_msg SCM_TSTAMP_SND \<lparr>tv_sec = 5, tv_nsec = 40000\<rparr> zero_timespec]"
  by (simp add: recv_timestamp_def recvmsg_errqueue_def errqueue_handle_recvmsg)

lemma cmsg_loop_last:
  "cmsg_loop m a b =
     ((case filter is_tstamping m of [] \<Rightarrow> a | c # cs \<Rightarrow> Some (data_tstamping (last (c # cs)))),
      (case filter is_recverr m of [] \<Rightarrow> b | c # cs \<Rightarrow> Some (data_serr (last (c # cs)))))"
proof (induction m arbitrary: a b)
  case Nil
  show ?case by simp
next
  case (Cons c m)
  have excl: "\<not> (is_tstamping c \<and> is_recverr c)"
    by (simp add: is_tstamping_def is_recverr_def SOL_SOCKET_def SOL_IP_def)
  show ?case
    using excl by (auto simp: Cons.IH is_tstamping_def is_recverr_def split: list.splits)
qed

lemma tstamps_recv_empty: "errqueue s = [] \<Longrightarrow> tstamps (recv_timestamp s) = tstamps s"
  by (simp add: recv_timestamp_def recvmsg_errqueue_def handle_recvmsg_def EAGAIN_def)

text \<open>
  C5, amended. The message read is the first of the queue; its timestamp triple and
  event type are those of the last control message of each kind. With both present:
  event type "entered scheduler" sets stage 0 to \<open>triple[0]\<close>; "handed to driver" with
  the seconds of \<open>triple[0]\<close> non-zero sets stage 1 to \<open>triple[0]\<close>; "handed to driver"
  with the seconds of \<open>triple[0]\<close> zero and the seconds of \<open>triple[2]\<close> non-zero sets
  stage 2 to \<open>triple[2]\<close>; anything else, a message lacking either piece, and an
  empty queue leave the record unchanged.
\<close>

theorem recv_timestamp_disambiguation:
  "tstamps (recv_timestamp s) =
     (case errqueue s of
        [] \<Rightarrow> tstamps s
      | m # q \<Rightarrow>
          if filter is_tstamping m = [] \<or> filter is_recverr m = [] then tstamps s
          else
            (let triple = ts (data_tstamping (last (filter is_tstamping m)));
                 event = ee_info (data_serr (last (filter is_recverr m)))
             in if event = SCM_TSTAMP_SCHED then (tstamps s)[0 := triple ! 0]
                else if event = SCM_TSTAMP_SND \<and> tv_sec (triple ! 0) \<noteq> 0
                then (tstamps s)[1 := triple ! 0]
                else if event = SCM_TSTAMP_SND \<and> tv_sec (triple ! 0) = 0
                        \<and> tv_sec (triple ! 2) \<noteq> 0
                then (tstamps s)[2 := triple ! 2]
                else tstamps s))"
proof (cases "errqueue s")
  case Nil
  then show ?thesis by (simp add: tstamps_recv_empty)
next
  case (Cons m q)
  then show ?thesis
    by (auto simp: recv_timestamp_def recvmsg_errqueue_def handle_recvmsg_def cmsg_loop_last
        store_timestamp_def Let_def split: list.splits)
qed

text \<open>
  Counterexample to C5 as stated: a "handed to driver" message whose triple has both
  \<open>triple[0]\<close> and \<open>triple[2]\<close> non-zero sets stage 1 only; stage 2 is not set to
  \<open>triple[2]\<close>.
\<close>

theorem handed_to_driver_both_stamps:
  "tstamps (recv_timestamp ((init_state None None)
      \<lparr>errqueue := [tstamp_msg SCM_TSTAMP_SND \<lparr>tv_sec = 1, tv_nsec = 0\<rparr>
                                               \<lparr>tv_sec = 2, tv_nsec = 0\<rparr>]\<rparr>))
   = [zero_timespec, \<lparr>tv_sec = 1, tv_nsec = 0\<rparr>, zero_timespec]"
  by (simp add: recv_defs init_state_def SCM_TSTAMP_SND_def SCM_TSTAMP_SCHED_def
      eval_nat_numeral)

text \<open>
  C10. Presence is decided by the seconds field alone. In the collector, a "handed to
  driver" message stores \<open>triple[0]\<close> as stage 1 exactly when the seconds of
  \<open>triple[0]\<close> are non-zero, otherwise \<open>triple[2]\<close> as stage 2 exactly when the seconds
  of \<open>triple[2]\<close> are non-zero, and otherwise nothing, whatever the nanoseconds: a
  timestamp of 0 s 500 ns is not stored, one of 1 s 0 ns is. In the controller, the
  cycle is treated as missing a timestamp exactly when one of the three seconds
  fields is 0; so a record whose first timestamp is 0 s 500 ns is anomalous.
\<close>

theorem presence_is_seconds_nonzero:
  "store_timestamp triple \<lparr>ee_info = SCM_TSTAMP_SND, ee_data = d\<rparr> tst
       = (if tv_sec (ts triple ! 0) \<noteq> 0 then tst[1 := ts triple ! 0]
          else if tv_sec (ts triple ! 2) \<noteq> 0 then tst[2 := ts triple ! 2]
          else tst)
   \<and> store_timestamp
       \<lparr>ts = [\<lparr>tv_sec = 0, tv_nsec = n0\<rparr>, t1, \<lparr>tv_sec = 0, tv_nsec = n2\<rparr>]\<rparr>
       \<lparr>ee_info = SCM_TSTAMP_SND, ee_data = d\<rparr> tst = tst
   \<and> store_timestamp
       \<lparr>ts = [\<lparr>tv_sec = 0, tv_nsec = 500\<rparr>, t1, \<lparr>tv_sec = 1, tv_nsec = 0\<rparr>]\<rparr>
       \<lparr>ee_info = SCM_TSTAMP_SND, ee_data = d\<rparr> [a, b, c]
       = [a, b, \<lparr>tv_sec = 1, tv_nsec = 0\<rparr>]
   \<and> fst (evaluate threshold s) =
       (tv_sec (tstamps s ! 0) = 0 \<or> tv_sec (tstamps s ! 1) = 0 \<or> tv_sec (tstamps s ! 2) = 0)
   \<and> evaluate threshold (s\<lparr>tstamps := [\<lparr>tv_sec = 0, tv_nsec = 500\<rparr>, ta, tb]\<rparr>)
       = (True, report_missing (s\<lparr>tstamps := [\<lparr>tv_sec = 0, tv_nsec = 500\<rparr>, ta, tb]\<rparr>))"
  by (simp add: store_timestamp_def SCM_TSTAMP_SND_def SCM_TSTAMP_SCHED_def evaluate_def
      tstamps_complete_def Let_def)

section \<open>The anomaly policy\<close>

text \<open>
  C6. With a snapshot sink configured (\<open>snapshot s = Some k\<close>) and arguments that
  passed the checks of \<^verbatim>\<open>main\<close>, evaluating a cycle writes one more request to the
  sink if and only if a stage timestamp is missing, or the threshold is positive and
  the latency exceeds it. With threshold 0 and the three timestamps present, nothing
  is written, whatever the latency.
\<close>

theorem snapshot_trigger:
  assumes "check_args period addend threshold = None" and "snapshot s = Some k"
  shows "snapshot (snd (evaluate threshold s)) =
           (if \<not> tstamps_complete (tstamps s)
               \<or> (threshold > 0 \<and> latency_us (tstamps s) > threshold)
            then Some (Suc k) else Some k)
       \<and> (threshold = 0 \<and> tstamps_complete (tstamps s) \<longrightarrow>
           snapshot (snd (evaluate threshold s)) = Some k)"
proof -
  from assms(1) have "0 \<le> threshold"
    by (simp add: check_args_def split: if_splits)
  then show ?thesis
    using assms(2) by (auto simp: evaluate_def Let_def report_missing_def split: option.splits)
qed

text \<open>
  Witness for C6: threshold 100 us and all stages present; a latency of 150 us
  requests the snapshot once, a latency of 99 us does not.
\<close>

theorem snapshot_trigger_witness:
  "check_args 1000000 0 100 = None
   \<and> snapshot (snd (evaluate 100 ((init_state (Some 0) None)
         \<lparr>num_packets := 2,
          tstamps := [\<lparr>tv_sec = 1, tv_nsec = 0\<rparr>, \<lparr>tv_sec = 1, tv_nsec = 50000\<rparr>,
                      \<lparr>tv_sec = 1, tv_nsec = 150000\<rparr>]\<rparr>))) = Some 1
   \<and> snapshot (snd (evaluate 100 ((init_state (Some 0) None)
         \<lparr>num_packets := 2,
          tstamps := [\<lparr>tv_sec = 1, tv_nsec = 0\<rparr>, \<lparr>tv_sec = 1, tv_nsec = 50000\<rparr>,
                      \<lparr>tv_sec = 1, tv_nsec = 99000\<rparr>]\<rparr>))) = Some 0"
proof -
  have h: "check_args 1000000 0 100 = None" by (simp add: check_args_def)
  from snapshot_trigger [OF h, of _ 0] show ?thesis
    by (simp add: h init_state_def tstamps_complete_def latency_us_def long_eval)
qed

lemma latency_us_wraps:
  "latency_us [\<lparr>tv_sec = 1, tv_nsec = 0\<rparr>, \<lparr>tv_sec = 1, tv_nsec = 50000\<rparr>,
               \<lparr>tv_sec = 10000000000, tv_nsec = 0\<rparr>] = - 8446744074709551"
  by (simp add: latency_us_def long_of_def signed_take_bit_eq_take_bit_minus take_bit_eq_mod
      bit_iff_odd)

text \<open>
  C8, amended. For every evaluated cycle whose three stage timestamps are all present
  (seconds fields non-zero), and for which none of the two subtractions, the
  multiplication and the addition of lines 513 to 515 leaves the range of the 64-bit
  type, the latency written to the error stream is the nanosecond difference between
  stage 2 and stage 0 divided by 1000 and truncated towards zero; it does not depend
  on stage 1. For example the stages at 1 s + 0 ns, 1 s + 50000 ns and
  1 s + 120000 ns give 120 us.
\<close>

theorem latency_truncated_microseconds:
  assumes "tstamps_complete (tstamps s)"
    and "fits_long (tv_sec (tstamps s ! 2) - tv_sec (tstamps s ! 0))"
    and "fits_long ((tv_sec (tstamps s ! 2) - tv_sec (tstamps s ! 0)) * 1000000000)"
    and "fits_long (tv_nsec (tstamps s ! 2) - tv_nsec (tstamps s ! 0))"
    and "fits_long (total_ns (tstamps s ! 2) - total_ns (tstamps s ! 0))"
  shows "fst (evaluate threshold s) = False
       \<and> stderr_log (snd (evaluate threshold s)) = stderr_log s @
           [CycleLine (seqid s)
              (tv_sec (tstamps s ! 0), tv_nsec (tstamps s ! 0) sdiv 1000)
              (tv_sec (tstamps s ! 1), tv_nsec (tstamps s ! 1) sdiv 1000)
              (tv_sec (tstamps s ! 2), tv_nsec (tstamps s ! 2) sdiv 1000)
              (latency_us (tstamps s))
              (snapshot s \<noteq> None \<and> threshold \<noteq> 0 \<and> latency_us (tstamps s) > threshold)]
       \<and> latency_us (tstamps s)
           = sgn (total_ns (tstamps s ! 2) - total_ns (tstamps s ! 0))
             * (\<bar>total_ns (tstamps s ! 2) - total_ns (tstamps s ! 0)\<bar> div 1000)
       \<and> latency_us ((tstamps s)[1 := t]) = latency_us (tstamps s)
       \<and> latency_us [\<lparr>tv_sec = 1, tv_nsec = 0\<rparr>, \<lparr>tv_sec = 1, tv_nsec = 50000\<rparr>,
                      \<lparr>tv_sec = 1, tv_nsec = 120000\<rparr>] = 120"
proof (intro conjI)
  show "fst (evaluate threshold s) = False"
    using assms(1) by (simp add: evaluate_def Let_def)
  show "stderr_log (snd (evaluate threshold s)) = stderr_log s @
           [CycleLine (seqid s)
              (tv_sec (tstamps s ! 0), tv_nsec (tstamps s ! 0) sdiv 1000)
              (tv_sec (tstamps s ! 1), tv_nsec (tstamps s ! 1) sdiv 1000)
              (tv_sec (tstamps s ! 2), tv_nsec (tstamps s ! 2) sdiv 1000)
              (latency_us (tstamps s))
              (snapshot s \<noteq> None \<and> threshold \<noteq> 0 \<and> latency_us (tstamps s) > threshold)]"
    using assms(1) by (simp add: evaluate_def Let_def)
  have sum: "(tv_sec (tstamps s ! 2) - tv_sec (tstamps s ! 0)) * 1000000000
         + (tv_nsec (tstamps s ! 2) - tv_nsec (tstamps s ! 0))
        = total_ns (tstamps s ! 2) - total_ns (tstamps s ! 0)"
    by (simp add: total_ns_def BILLION_def algebra_simps)
  have a2: "long_of (tv_sec (tstamps s ! 2) - tv_sec (tstamps s ! 0))
      = tv_sec (tstamps s ! 2) - tv_sec (tstamps s ! 0)"
    using assms(2) by (rule long_of_fits)
  have a3: "long_of ((tv_sec (tstamps s ! 2) - tv_sec (tstamps s ! 0)) * 1000000000)
      = (tv_sec (tstamps s ! 2) - tv_sec (tstamps s ! 0)) * 1000000000"
    using assms(3) by (rule long_of_fits)
  have a4: "long_of (tv_nsec (tstamps s ! 2) - tv_nsec (tstamps s ! 0))
      = tv_nsec (tstamps s ! 2) - tv_nsec (tstamps s ! 0)"
    using assms(4) by (rule long_of_fits)
  have a5: "long_of (total_ns (tstamps s ! 2) - total_ns (tstamps s ! 0))
      = total_ns (tstamps s ! 2) - total_ns (tstamps s ! 0)"
    using assms(5) by (rule long_of_fits)
  have "latency_us (tstamps s)
      = (total_ns (tstamps s ! 2) - total_ns (tstamps s ! 0)) sdiv 1000"
    unfolding latency_us_def a2 a3 a4 sum a5 ..
  then show "latency_us (tstamps s)
           = sgn (total_ns (tstamps s ! 2) - total_ns (tstamps s ! 0))
             * (\<bar>total_ns (tstamps s ! 2) - total_ns (tstamps s ! 0)\<bar> div 1000)"
    by (simp add: signed_divide_int_def)
  show "latency_us ((tstamps s)[1 := t]) = latency_us (tstamps s)"
    by (simp add: latency_us_def)
  show "latency_us [\<lparr>tv_sec = 1, tv_nsec = 0\<rparr>, \<lparr>tv_sec = 1, tv_nsec = 50000\<rparr>,
                      \<lparr>tv_sec = 1, tv_nsec = 120000\<rparr>] = 120"
    by (simp add: latency_us_def long_eval)
qed

text \<open>
  Witness for C8: the record of the example above, evaluated in the second
  iteration; nothing overflows and the line written reports 120 us.
\<close>

theorem latency_truncated_microseconds_witness:
  "tstamps_complete [\<lparr>tv_sec = 1, tv_nsec = 0\<rparr>, \<lparr>tv_sec = 1, tv_nsec = 50000\<rparr>,
                     \<lparr>tv_sec = 1, tv_nsec = 120000\<rparr>]
   \<and> fits_long (1 - 1) \<and> fits_long ((1 - 1) * 1000000000) \<and> fits_long (120000 - 0)
   \<and> fits_long (total_ns \<lparr>tv_sec = 1, tv_nsec = 120000\<rparr> - total_ns \<lparr>tv_sec = 1, tv_nsec = 0\<rparr>)
   \<and> stderr_log (snd (evaluate 0 ((init_state None None)
         \<lparr>num_packets := 1, seqid := 1,
          tstamps := [\<lparr>tv_sec = 1, tv_nsec = 0\<rparr>, \<lparr>tv_sec = 1, tv_nsec = 50000\<rparr>,
                      \<lparr>tv_sec = 1, tv_nsec = 120000\<rparr>]\<rparr>)))
      = [CycleLine 1 (1, 0) (1, 50) (1, 120) 120 False]"
proof -
  let ?s = "(init_state None None)
         \<lparr>num_packets := 1, seqid := 1,
          tstamps := [\<lparr>tv_sec = 1, tv_nsec = 0\<rparr>, \<lparr>tv_sec = 1, tv_nsec = 50000\<rparr>,
                      \<lparr>tv_sec = 1, tv_nsec = 120000\<rparr>]\<rparr>"
  have h1: "tstamps_complete (tstamps ?s)" by (simp add: tstamps_complete_def)
  have h2: "fits_long (tv_sec (tstamps ?s ! 2) - tv_sec (tstamps ?s ! 0))"
    by (simp add: fits_long_def LONG_MIN_def LONG_MAX_def)
  have h3: "fits_long ((tv_sec (tstamps ?s ! 2) - tv_sec (tstamps ?s ! 0)) * 1000000000)"
    by (simp add: fits_long_def LONG_MIN_def LONG_MAX_def)
  have h4: "fits_long (tv_nsec (tstamps ?s ! 2) - tv_nsec (tstamps ?s ! 0))"
    by (simp add: fits_long_def LONG_MIN_def LONG_MAX_def)
  have h5: "fits_long (total_ns (tstamps ?s ! 2) - total_ns (tstamps ?s ! 0))"
    by (simp add: fits_long_def LONG_MIN_def LONG_MAX_def total_ns_def BILLION_def)
  from latency_truncated_microseconds [OF h1 h2 h3 h4 h5, of 0 zero_timespec] h2 h3 h4 h5
  show ?thesis
    by (simp add: tstamps_complete_def init_state_def latency_us_def long_eval)
qed

text \<open>
  Counterexample to C8 as stated: its example. The three messages of a packet with
  stages at 0 ns, 50000 ns and 120000 ns (seconds 0) are delivered during the wait
  of the second iteration. No latency is reported: the three stages are reported
  missing.
\<close>

theorem zero_seconds_stages_reported_missing:
  "stderr_log (cycle 1000000 0 0
        (deliver (stamps \<lparr>tv_sec = 0, tv_nsec = 0\<rparr> \<lparr>tv_sec = 0, tv_nsec = 50000\<rparr>
                         \<lparr>tv_sec = 0, tv_nsec = 120000\<rparr>))
        (cycle 1000000 0 0 (deliver []) (init_state None None)))
     = [MissingTimestamp 0, MissingTimestamp 1, MissingTimestamp 2]"
  by (simp add: cycle_first)
     (simp add: cycle_def transmit_deliver stamps_def recv_defs
        init_state_def linux_defs zero_timespec_def evaluate_def tstamps_complete_def
        report_missing_def replicate3 Let_def)

section \<open>The clock synchronizer\<close>








section \<open>The statistics engine: buckets\<close>

lemma bins_loop_scan:
  "i \<le> 11 \<Longrightarrow> (\<forall>j<i. \<not> L < 32 * 2 ^ j) \<Longrightarrow>
     bins_loop L i b = b[spec_bucket L := b ! spec_bucket L + 1]"
proof (induction L i b rule: bins_loop.induct)
  case (1 latency i b)
  show ?case
  proof (cases "i < 11")
    case False
    with "1.prems" have i: "i = 11" by simp
    with "1.prems" have "\<not> (\<exists>k\<le>10. latency < 32 * 2 ^ k)" by auto
    then have "spec_bucket latency = 11" unfolding spec_bucket_def by (simp only: if_False)
    with i show ?thesis by (subst bins_loop.simps) (simp add: NBINS_def)
  next
    case True
    show ?thesis
    proof (cases "latency < 32 * 2 ^ i")
      case hit: True
      have "(LEAST k. latency < 32 * 2 ^ k) = i"
        using hit "1.prems"(2) by (intro Least_equality) (auto simp: not_less[symmetric])
      moreover have "\<exists>k\<le>10. latency < 32 * 2 ^ k"
        using hit True by (intro exI[of _ i]) simp
      ultimately have "spec_bucket latency = i" by (simp add: spec_bucket_def)
      with hit True show ?thesis by (subst bins_loop.simps) (simp add: NBINS_def BIN0_def)
    next
      case miss: False
      have "\<forall>j<i + 1. \<not> latency < 32 * 2 ^ j"
        using miss "1.prems"(2) by (auto simp: less_Suc_eq)
      moreover have "i + 1 \<le> 11" using True by simp
      ultimately have "bins_loop latency (i + 1) b
          = b[spec_bucket latency := b ! spec_bucket latency + 1]"
        using "1.IH" True miss by (simp add: NBINS_def BIN0_def)
      with True miss show ?thesis by (subst bins_loop.simps) (simp add: NBINS_def BIN0_def)
    qed
  qed
qed

lemma spec_bucket_le: "spec_bucket L \<le> 11"
proof (cases "\<exists>i\<le>10. L < 32 * 2 ^ i")
  case True
  then obtain i where "i \<le> 10" "L < 32 * 2 ^ i" by blast
  then have "(LEAST i. L < 32 * 2 ^ i) \<le> i" by (intro Least_le)
  with \<open>i \<le> 10\<close> True show ?thesis by (simp add: spec_bucket_def)
next
  case False
  then show ?thesis unfolding spec_bucket_def by (simp only: if_False)
qed

lemma bins_update_statistics:
  "bins (update_statistics L s) = bins_loop L 0 (bins s)"
  by (simp add: update_statistics_def Let_def)

text \<open>
  C7. Recording a latency \<open>L\<close> (in microseconds) increments one bucket (the counter
  wraps as a \<^verbatim>\<open>size_t\<close>) and leaves the others alone: the bucket with the smallest index
  \<open>i\<close> in \<open>[0,10]\<close> such that \<open>L < 32 * 2 ^ i\<close>, or bucket 11 if there is none. 31 us falls
  in bucket 0, 32 us in bucket 1, 32767 us in bucket 10, 32768 us in bucket 11.
\<close>

theorem histogram_bucket_selection:
  "bins (update_statistics L s) = (bins s)[spec_bucket L := bins s ! spec_bucket L + 1]
   \<and> spec_bucket L \<le> 11
   \<and> bins (update_statistics 31 s) = (bins s)[0 := bins s ! 0 + 1]
   \<and> bins (update_statistics 32 s) = (bins s)[1 := bins s ! 1 + 1]
   \<and> bins (update_statistics 32767 s) = (bins s)[10 := bins s ! 10 + 1]
   \<and> bins (update_statistics 32768 s) = (bins s)[11 := bins s ! 11 + 1]"
proof (intro conjI)
  show "bins (update_statistics L s) = (bins s)[spec_bucket L := bins s ! spec_bucket L + 1]"
    by (simp add: bins_update_statistics bins_loop_scan)
  show "spec_bucket L \<le> 11"
    by (rule spec_bucket_le)
  show "bins (update_statistics 31 s) = (bins s)[0 := bins s ! 0 + 1]"
    by (simp add: bins_update_statistics bins_loop.simps NBINS_def BIN0_def eval_nat_numeral)
  show "bins (update_statistics 32 s) = (bins s)[1 := bins s ! 1 + 1]"
    by (simp add: bins_update_statistics bins_loop.simps NBINS_def BIN0_def eval_nat_numeral)
  show "bins (update_statistics 32767 s) = (bins s)[10 := bins s ! 10 + 1]"
    by (simp add: bins_update_statistics bins_loop.simps NBINS_def BIN0_def eval_nat_numeral)
  show "bins (update_statistics 32768 s) = (bins s)[11 := bins s ! 11 + 1]"
    by (simp add: bins_update_statistics bins_loop.simps NBINS_def BIN0_def eval_nat_numeral)
qed

section \<open>The first completed cycle\<close>

lemma statistics_cycle_fresh:
  assumes "num_packets s = 0 \<or> num_packets s = 1"
  shows "statistics (cycle period addend threshold inp s) = statistics s"
proof -
  define s1 where "s1 = transmit period addend inp s"
  have fr: "num_packets s1 = num_packets s" "statistics s1 = statistics s"
    using transmit_frame(1,2) [of period addend inp s] by (simp_all add: s1_def counters_def)
  have n1: "\<not> 1 < num_packets s1" using assms fr by auto
  have "statistics (snd (evaluate threshold s1)) = statistics s1"
  proof (cases "tstamps_complete (tstamps s1)")
    case True
    from evaluate_complete(5) [OF True n1] show ?thesis .
  next
    case False
    then show ?thesis by (simp add: evaluate_incomplete report_missing_frame)
  qed
  moreover obtain c s2 where ev: "evaluate threshold s1 = (c, s2)"
    by (cases "evaluate threshold s1")
  ultimately have "statistics s2 = statistics s" using fr by simp
  with fr ev show ?thesis
    by (cases c) (auto simp: cycle_def s1_def [symmetric] statistics_def)
qed

lemma fresh_cycle:
  assumes "fresh s"
    and "\<forall>l\<in>set (stderr_log (cycle period addend threshold inp s)). \<not> is_cycle_line l"
  shows "fresh (cycle period addend threshold inp s)"
proof -
  define s1 where "s1 = transmit period addend inp s"
  have fr: "num_packets s1 = num_packets s"
    using transmit_frame(1) [of period addend inp s] by (simp add: s1_def counters_def)
  from assms(1) have np: "num_packets s = 0 \<or> num_packets s = 1" by (simp add: fresh_def)
  have st: "statistics (cycle period addend threshold inp s) = statistics s"
    by (rule statistics_cycle_fresh [OF np])
  have "num_packets (cycle period addend threshold inp s) = 1"
  proof (cases "num_packets s = 0")
    case True
    with fr show ?thesis by (simp add: cycle_def s1_def [symmetric])
  next
    case False
    with np have one: "num_packets s = 1" by simp
    show ?thesis
    proof (cases "tstamps_complete (tstamps s1)")
      case True
      from evaluate_complete(1,4) [OF True, of threshold]
      obtain s2 l where "evaluate threshold s1 = (False, s2)"
        "is_cycle_line l" "l \<in> set (stderr_log s2)"
        by (cases "evaluate threshold s1") auto
      then have "is_cycle_line l" "l \<in> set (stderr_log (cycle period addend threshold inp s))"
        using one fr by (simp_all add: cycle_def s1_def [symmetric])
      with assms(2) show ?thesis by blast
    next
      case False
      with one fr show ?thesis
        by (simp add: cycle_def s1_def [symmetric] evaluate_incomplete report_missing_frame)
    qed
  qed
  with st assms(1) show ?thesis by (simp add: fresh_def)
qed

lemma fresh_main_loop:
  assumes "fresh s"
    and "\<forall>l\<in>set (stderr_log (main_loop period addend threshold inps s)). \<not> is_cycle_line l"
  shows "fresh (main_loop period addend threshold inps s)"
  using assms
proof (induction inps arbitrary: s)
  case Nil
  then show ?case by simp
next
  case (Cons inp inps)
  let ?s' = "cycle period addend threshold inp s"
  have "\<forall>l\<in>set (stderr_log ?s'). \<not> is_cycle_line l"
    using Cons.prems(2) stderr_main_loop [of ?s' period addend threshold inps] by auto
  with Cons.prems(1) have "fresh ?s'" by (rule fresh_cycle)
  with Cons.IH [of ?s'] Cons.prems(2) show ?case by simp
qed

lemma fresh_init: "fresh (init_state snap marker)"
  by (simp add: fresh_def init_state_def statistics_def)

text \<open>
  C9. As long as no cycle has been completed (no latency line has been written to
  the error stream), the statistics are still the initial ones after one more
  iteration, whatever that iteration receives: the latency of the first completed
  cycle reaches none of the minimum, the maximum, the sample window and the
  histogram, also when its three timestamps are present and its latency is below
  the threshold.
\<close>

theorem first_completed_cycle_excluded:
  assumes "\<forall>l\<in>set (stderr_log (main_loop period addend threshold inps (init_state snap marker))).
             \<not> is_cycle_line l"
  shows "statistics (cycle period addend threshold inp
                       (main_loop period addend threshold inps (init_state snap marker)))
         = (LONG_MAX, LONG_MIN, replicate NSAMPLES 0, replicate NBINS 0)"
proof -
  from fresh_main_loop [OF fresh_init assms]
  have f: "fresh (main_loop period addend threshold inps (init_state snap marker))" .
  then have "num_packets (main_loop period addend threshold inps (init_state snap marker)) = 0
      \<or> num_packets (main_loop period addend threshold inps (init_state snap marker)) = 1"
    by (simp add: fresh_def)
  from statistics_cycle_fresh [OF this] f show ?thesis by (simp add: fresh_def)
qed

lemma run_anomalous:
  "main_loop 1000000 0 1000
     [deliver [], deliver [tstamp_msg SCM_TSTAMP_SCHED \<lparr>tv_sec = 5, tv_nsec = 0\<rparr> zero_timespec]]
     (init_state None None)
   = (init_state None None)
       \<lparr>num_packets := 1, seqid := 1, buf_seqid := 1,
        tstamps := [\<lparr>tv_sec = 5, tv_nsec = 0\<rparr>, zero_timespec, zero_timespec],
        stderr_log := [MissingTimestamp 1, MissingTimestamp 2]\<rparr>"
  by (simp add: cycle_first)
     (simp add: cycle_def transmit_deliver recv_defs init_state_def linux_defs
        zero_timespec_def evaluate_def tstamps_complete_def report_missing_def replicate3 Let_def)

text \<open>
  Witness for C9: a first iteration, an iteration in which only the scheduler
  timestamp arrives (reported missing), then the first completed cycle with a
  latency of 120 us under a threshold of 1000 us. Its line is written and the
  statistics are untouched.
\<close>

theorem first_completed_cycle_excluded_witness:
  "stderr_log (main_loop 1000000 0 1000
     [deliver [], deliver [tstamp_msg SCM_TSTAMP_SCHED \<lparr>tv_sec = 5, tv_nsec = 0\<rparr> zero_timespec]]
     (init_state None None)) = [MissingTimestamp 1, MissingTimestamp 2]
   \<and> stderr_log (cycle 1000000 0 1000
        (deliver (stamps \<lparr>tv_sec = 6, tv_nsec = 0\<rparr> \<lparr>tv_sec = 6, tv_nsec = 50000\<rparr>
                         \<lparr>tv_sec = 6, tv_nsec = 120000\<rparr>))
        (main_loop 1000000 0 1000
          [deliver [], deliver [tstamp_msg SCM_TSTAMP_SCHED \<lparr>tv_sec = 5, tv_nsec = 0\<rparr> zero_timespec]]
          (init_state None None)))
       = [MissingTimestamp 1, MissingTimestamp 2,
          CycleLine 1 (6, 0) (6, 50) (6, 120) 120 False]
   \<and> statistics (cycle 1000000 0 1000
        (deliver (stamps \<lparr>tv_sec = 6, tv_nsec = 0\<rparr> \<lparr>tv_sec = 6, tv_nsec = 50000\<rparr>
                         \<lparr>tv_sec = 6, tv_nsec = 120000\<rparr>))
        (main_loop 1000000 0 1000
          [deliver [], deliver [tstamp_msg SCM_TSTAMP_SCHED \<lparr>tv_sec = 5, tv_nsec = 0\<rparr> zero_timespec]]
          (init_state None None)))
       = (LONG_MAX, LONG_MIN, replicate NSAMPLES 0, replicate NBINS 0)"
proof -
  let ?inps = "[deliver [], deliver [tstamp_msg SCM_TSTAMP_SCHED \<lparr>tv_sec = 5, tv_nsec = 0\<rparr> zero_timespec]]"
  let ?inp = "deliver (stamps \<lparr>tv_sec = 6, tv_nsec = 0\<rparr> \<lparr>tv_sec = 6, tv_nsec = 50000\<rparr>
                         \<lparr>tv_sec = 6, tv_nsec = 120000\<rparr>)"
  have h: "\<forall>l\<in>set (stderr_log (main_loop 1000000 0 1000 ?inps (init_state None None))).
             \<not> is_cycle_line l"
    unfolding run_anomalous by simp
  have lg: "stderr_log (cycle 1000000 0 1000 ?inp
        (main_loop 1000000 0 1000 ?inps (init_state None None)))
       = [MissingTimestamp 1, MissingTimestamp 2,
          CycleLine 1 (6, 0) (6, 50) (6, 120) 120 False]"
    unfolding run_anomalous
    by (simp add: cycle_def transmit_deliver stamps_def recv_defs init_state_def linux_defs
        zero_timespec_def evaluate_def tstamps_complete_def latency_us_def Let_def put_marker_def
        long_eval)
  from first_completed_cycle_excluded [OF h, of ?inp] lg show ?thesis
    unfolding run_anomalous by simp
qed

section \<open>The report\<close>

lemma insort_by_compar: "insort_by compar x ys = insort x ys"
  by (induction ys) (simp_all add: compar_def)

lemma qsort_compar: "qsort xs n compar = sort (take n xs) @ drop n xs"
proof -
  have "foldr (insort_by compar) ys [] = sort ys" for ys
    by (induction ys) (simp_all add: insort_by_compar)
  then show ?thesis by (simp add: qsort_def)
qed

lemma report_count:
  "(if of_nat NSAMPLES < (w :: 64 word) then NSAMPLES else unat w) = min (unat w) NSAMPLES"
  by (simp add: NSAMPLES_def word_less_nat_alt min_def)

text \<open>What \<^verbatim>\<open>print_statistics\<close> does once at least two packets have been counted: the
  first \<open>n\<close> entries of the window are sorted in place and the entry at index
  \<open>n div 2\<close> is printed, where \<open>n\<close> is the decremented count, at most 1024.\<close>

lemma print_statistics_sorts:
  assumes "length (samples s) = NSAMPLES" and "num_packets s \<noteq> 0" and "num_packets s \<noteq> 1"
    and n: "n = min (unat (num_packets s - 1)) NSAMPLES"
  shows "\<exists>rest. print_statistics s =
      s\<lparr>num_packets := num_packets s - 1,
        samples := sort (take n (samples s)) @ drop n (samples s),
        stdout_log := stdout_log s
           @ PacketsTransmitted (num_packets s - 1)
           # MinMedianMax (min_lat s) (sort (take n (samples s)) ! (n div 2)) (max_lat s)
           # rest\<rparr>"
proof -
  from assms(3) have nz: "num_packets s - 1 \<noteq> 0" by simp
  then have "unat (num_packets s - 1) \<noteq> 0" by (simp add: unat_eq_0)
  then have n0: "0 < n" by (simp add: n NSAMPLES_def)
  have nle: "n \<le> length (samples s)" by (simp add: n assms(1))
  have med: "(sort (take n (samples s)) @ drop n (samples s)) ! (n div 2)
      = sort (take n (samples s)) ! (n div 2)"
    using n0 nle by (simp add: nth_append)
  obtain rows low where rl: "rows_loop 0 0 BIN0 (bins s) = (rows, low)"
    by (cases "rows_loop 0 0 BIN0 (bins s)")
  have nval: "n = (if of_nat NSAMPLES < num_packets s - 1 then NSAMPLES
                   else unat (num_packets s - 1))"
    by (simp add: n report_count)
  have "print_statistics s =
      s\<lparr>num_packets := num_packets s - 1,
        samples := sort (take n (samples s)) @ drop n (samples s),
        stdout_log := stdout_log s
           @ PacketsTransmitted (num_packets s - 1)
           # MinMedianMax (min_lat s) (sort (take n (samples s)) ! (n div 2)) (max_lat s)
           # (DistributionHeader # rows @ [LastBinRow (low - 1) (bins s ! (NBINS - 1))])\<rparr>"
  proof (cases "of_nat NSAMPLES < num_packets s - 1")
    case True
    with nval have "n = NSAMPLES" by simp
    with True assms(2) nz rl med show ?thesis
      by (simp add: print_statistics_def Let_def qsort_compar)
  next
    case False
    with nval have "n = unat (num_packets s - 1)" by simp
    with False assms(2) nz rl med show ?thesis
      by (simp add: print_statistics_def Let_def qsort_compar)
  qed
  then show ?thesis by blast
qed

lemma window_split: "replicate NSAMPLES (0::int) = [0, 0, 0, 0] @ replicate 1020 0"
proof -
  have "replicate NSAMPLES (0::int) = replicate 4 0 @ replicate 1020 0"
    by (simp add: NSAMPLES_def replicate_add [symmetric])
  moreover have "replicate 4 (0::int) = [0, 0, 0, 0]"
    by (simp add: eval_nat_numeral)
  ultimately show ?thesis by simp
qed

lemma window_23: "(replicate NSAMPLES (0::int))[2 := a, 3 := b] = [0, 0, a, b] @ replicate 1020 0"
  by (simp add: window_split list_update_append numeral_2_eq_2 numeral_3_eq_3)

text \<open>Four iterations: the first evaluates nothing, the second completes the first
  cycle (120 us, excluded from the statistics), the third and the fourth record the
  two counted samples 50 us and 100 us, at indices 2 and 3 of the window.\<close>

lemma run_two_samples:
  "main_loop 1000000 0 0
     [deliver [],
      deliver (stamps \<lparr>tv_sec = 1, tv_nsec = 0\<rparr> \<lparr>tv_sec = 1, tv_nsec = 50000\<rparr> \<lparr>tv_sec = 1, tv_nsec = 120000\<rparr>),
      deliver (stamps \<lparr>tv_sec = 2, tv_nsec = 0\<rparr> \<lparr>tv_sec = 2, tv_nsec = 10000\<rparr> \<lparr>tv_sec = 2, tv_nsec = 50000\<rparr>),
      deliver (stamps \<lparr>tv_sec = 3, tv_nsec = 0\<rparr> \<lparr>tv_sec = 3, tv_nsec = 50000\<rparr> \<lparr>tv_sec = 3, tv_nsec = 100000\<rparr>)]
     (init_state None None)
   = (init_state None None)
       \<lparr>num_packets := 4, seqid := 4, buf_seqid := 3, min_lat := 50, max_lat := 100,
        samples := (replicate NSAMPLES 0)[2 := 50, 3 := 100],
        bins := (replicate NBINS 0)[1 := 1, 2 := 1],
        stderr_log := [CycleLine 1 (1, 0) (1, 50) (1, 120) 120 False,
                       CycleLine 2 (2, 0) (2, 10) (2, 50) 50 False,
                       CycleLine 3 (3, 0) (3, 50) (3, 100) 100 False]\<rparr>"
  by (simp add: cycle_first)
     (simp add: cycle_def transmit_deliver stamps_def recv_defs init_state_def linux_defs
        zero_timespec_def evaluate_def tstamps_complete_def latency_us_def replicate3 Let_def
        long_of_id
        update_statistics_def bins_loop.simps NBINS_def BIN0_def NSAMPLES_def
        LONG_MAX_def LONG_MIN_def put_marker_def,
      simp add: numeral_2_eq_2)

text \<open>
  C2. The report after exactly \<open>k = 2\<close> counted samples, 50 us and 100 us (the run
  above). The claim takes the median from the two counted samples: index 1 of
  50, 100, which is 100, with the window left as it was. The code counts 3 packets,
  sorts the first three window entries 0, 0, 50, of which the two zeros were never
  recorded, leaves the sample 100 out, and prints the median 0; the window before
  the report starts 0, 0, 50, 100.
\<close>

theorem median_over_unrecorded_entries:
  "take 4 (samples (main_loop 1000000 0 0
     [deliver [],
      deliver (stamps \<lparr>tv_sec = 1, tv_nsec = 0\<rparr> \<lparr>tv_sec = 1, tv_nsec = 50000\<rparr> \<lparr>tv_sec = 1, tv_nsec = 120000\<rparr>),
      deliver (stamps \<lparr>tv_sec = 2, tv_nsec = 0\<rparr> \<lparr>tv_sec = 2, tv_nsec = 10000\<rparr> \<lparr>tv_sec = 2, tv_nsec = 50000\<rparr>),
      deliver (stamps \<lparr>tv_sec = 3, tv_nsec = 0\<rparr> \<lparr>tv_sec = 3, tv_nsec = 50000\<rparr> \<lparr>tv_sec = 3, tv_nsec = 100000\<rparr>)]
     (init_state None None))) = [0, 0, 50, 100]
   \<and> take 2 (stdout_log (wiretime 1000000 0 0 None None
     [deliver [],
      deliver (stamps \<lparr>tv_sec = 1, tv_nsec = 0\<rparr> \<lparr>tv_sec = 1, tv_nsec = 50000\<rparr> \<lparr>tv_sec = 1, tv_nsec = 120000\<rparr>),
      deliver (stamps \<lparr>tv_sec = 2, tv_nsec = 0\<rparr> \<lparr>tv_sec = 2, tv_nsec = 10000\<rparr> \<lparr>tv_sec = 2, tv_nsec = 50000\<rparr>),
      deliver (stamps \<lparr>tv_sec = 3, tv_nsec = 0\<rparr> \<lparr>tv_sec = 3, tv_nsec = 50000\<rparr> \<lparr>tv_sec = 3, tv_nsec = 100000\<rparr>)]))
       = [PacketsTransmitted 3, MinMedianMax 50 0 100]"
proof -
  let ?s = "(init_state None None)
       \<lparr>num_packets := 4, seqid := 4, buf_seqid := 3, min_lat := 50, max_lat := 100,
        samples := (replicate NSAMPLES 0)[2 := 50, 3 := 100],
        bins := (replicate NBINS 0)[1 := 1, 2 := 1],
        stderr_log := [CycleLine 1 (1, 0) (1, 50) (1, 120) 120 False,
                       CycleLine 2 (2, 0) (2, 10) (2, 50) 50 False,
                       CycleLine 3 (3, 0) (3, 50) (3, 100) 100 False]\<rparr>"
  have l: "length (samples ?s) = NSAMPLES" by simp
  have a: "num_packets ?s \<noteq> 0" and b: "num_packets ?s \<noteq> 1" by simp_all
  have n: "3 = min (unat (num_packets ?s - 1)) NSAMPLES" by (simp add: NSAMPLES_def)
  from print_statistics_sorts [OF l a b n] show ?thesis
    unfolding wiretime_def run_two_samples by (auto simp: window_23 init_state_def)
qed

end
